theory Spec2Isabelle
  imports Main
begin

section \<open>Python strings\<close>

text \<open>
  The supervisor builds shell commands and log lines with \<^verbatim>\<open>%\<close> formatting and tests
  command lines with \<^verbatim>\<open>in\<close>. Strings are \<^typ>\<open>string\<close>; \<^verbatim>\<open>%i\<close> is the decimal
  rendering of an integer, \<^verbatim>\<open>" ".join\<close> puts one blank between the parts, and
  \<^verbatim>\<open>a in b\<close> is the substring test.
\<close>

definition digit_char :: "nat \<Rightarrow> char" where
  "digit_char d = ''0123456789'' ! d"

function str_nat :: "nat \<Rightarrow> string" where
  "str_nat n = (if n < 10 then [digit_char n] else str_nat (n div 10) @ [digit_char (n mod 10)])"
  by pat_completeness auto
termination
  by (relation "measure (\<lambda>n. n)") auto

declare str_nat.simps [simp del]

definition str_int :: "int \<Rightarrow> string" where
  "str_int i = (if i < 0 then CHR ''-'' # str_nat (nat (- i)) else str_nat (nat i))"

fun join_blank :: "string list \<Rightarrow> string" where
  "join_blank [] = []"
| "join_blank [x] = x"
| "join_blank (x # y # zs) = x @ '' '' @ join_blank (y # zs)"

fun starts_with :: "string \<Rightarrow> string \<Rightarrow> bool" where
  "starts_with [] t = True"
| "starts_with (a # s) [] = False"
| "starts_with (a # s) (b # t) = (a = b \<and> starts_with s t)"

fun py_in :: "string \<Rightarrow> string \<Rightarrow> bool" where
  "py_in s [] = (s = [])"
| "py_in s (c # t) = (starts_with s (c # t) \<or> py_in s t)"

text \<open>Truthiness of an optional string attribute: \<^verbatim>\<open>None\<close> and \<^verbatim>\<open>''\<close> are both false.\<close>

fun truthy :: "string option \<Rightarrow> bool" where
  "truthy None = False"
| "truthy (Some s) = (s \<noteq> [])"

section \<open>Data model\<close>

text \<open>
  \<^verbatim>\<open>Forwarding\<close> and \<^verbatim>\<open>HostTunnelDefinitions\<close> come from \<^verbatim>\<open>model.py\<close>, which is not
  among the sources; the records below hold the attributes \<^verbatim>\<open>manager.py\<close> reads. The
  attribute \<^verbatim>\<open>validate.method\<close> is the field \<open>validate_method\<close>. An optional string
  attribute may be \<^verbatim>\<open>None\<close>.
\<close>

record validate_policy =
  validate_method :: string
  interval :: int
  wait_time_before_restart :: int
  kill_existing_tunnel_on_failure :: bool

text \<open>Modelled from the spec: the method \<^verbatim>\<open>create_ssh_forwarding()\<close> of \<^verbatim>\<open>Forwarding\<close>
  is missing with \<^verbatim>\<open>model.py\<close>. Section 3 says that it produces the signature, a string
  determined by the definition; the field of that name holds its result.\<close>

record forwarding =
  create_ssh_forwarding :: string
  validate :: validate_policy

record host_tunnel_definitions =
  remote_user :: string
  remote_host :: string
  remote_port :: int
  remote_key :: "string option"
  remote_password :: "string option"
  ssh_opts :: "string option"

text \<open>An operating-system process as \<^verbatim>\<open>psutil\<close> shows it, and a \<^verbatim>\<open>Popen\<close> handle. Handles are
  compared by identity, so each carries the index of the \<^verbatim>\<open>Popen\<close> call that made it.\<close>

record process =
  pid :: nat
  pname :: string
  cmdline :: "string list"

record popen =
  handle_id :: nat
  popen_pid :: nat

type_synonym date = nat

datatype level = Info | Debug | Error

datatype event =
    Log level string
  | Sleep nat
  | Popen string
  | ProcessKill nat
  | PopenKill popen
  | AliveCheck string bool
  | HealthProbe bool

datatype error = ValueError

subsection \<open>The environment\<close>

text \<open>
  Everything the manager asks of the outside world is an oracle, indexed by the number of
  earlier calls of the same kind, so that two calls may answer differently:
  \<^verbatim>\<open>Validation.is_process_alive\<close> and \<^verbatim>\<open>Validation.check_tunnel_alive\<close> (their module is
  not among the sources), \<^verbatim>\<open>psutil.process_iter()\<close>, the pid of a new \<^verbatim>\<open>Popen\<close>,
  \<^verbatim>\<open>Popen.poll()\<close> and \<^verbatim>\<open>date.today()\<close>. Time passes only in \<^verbatim>\<open>sleep\<close>; the main thread
  sets the termination flag at clock value \<open>shutdown_at\<close>, if at all.
\<close>

record env =
  is_process_alive :: "nat \<Rightarrow> string \<Rightarrow> bool"
  check_tunnel_alive :: "nat \<Rightarrow> forwarding \<Rightarrow> host_tunnel_definitions \<Rightarrow> bool"
  process_iter :: "nat \<Rightarrow> process list"
  new_pid :: "nat \<Rightarrow> string \<Rightarrow> nat"
  poll :: "nat \<Rightarrow> popen \<Rightarrow> int option"
  today :: "nat \<Rightarrow> date"
  shutdown_at :: "nat option"

subsection \<open>The manager and the world around it\<close>

text \<open>
  The first four fields are the attributes of \<^verbatim>\<open>TunnelManager\<close>; \<open>clock\<close> counts the seconds
  slept, \<open>trace\<close> lists the effects and the answers of the two health oracles in order, and
  the remaining fields count the oracle calls.
  The lock is re-entrant and taken by one thread at a time; in this sequential model it has
  no effect.
\<close>

record world =
  is_terminating :: bool
  signatures :: "string list"
  procs :: "popen list"
  starts_history :: "forwarding \<rightharpoonup> date list"
  clock :: nat
  trace :: "event list"
  alive_calls :: nat
  probe_calls :: nat
  iter_calls :: nat
  popen_calls :: nat
  poll_calls :: nat

definition init :: world where
  "init = \<lparr>is_terminating = False, signatures = [], procs = [], starts_history = Map.empty,
           clock = 0, trace = [], alive_calls = 0, probe_calls = 0, iter_calls = 0,
           popen_calls = 0, poll_calls = 0\<rparr>"

text \<open>What a trace shows: the commands started, the processes killed through \<^verbatim>\<open>psutil\<close>, and
  the number of questions put to the two health oracles.\<close>

fun spawned :: "event list \<Rightarrow> string list" where
  "spawned [] = []"
| "spawned (e # es) = (case e of Popen cmd \<Rightarrow> cmd # spawned es | _ \<Rightarrow> spawned es)"

fun killed :: "event list \<Rightarrow> nat list" where
  "killed [] = []"
| "killed (e # es) = (case e of ProcessKill p \<Rightarrow> p # killed es | _ \<Rightarrow> killed es)"

definition emit :: "event \<Rightarrow> world \<Rightarrow> world" where
  "emit e w = w\<lparr>trace := trace w @ [e]\<rparr>"

definition sleep_for :: "env \<Rightarrow> nat \<Rightarrow> world \<Rightarrow> world" where
  "sleep_for en secs w =
     (let c = clock w + secs
      in w\<lparr>clock := c,
           trace := trace w @ [Sleep secs],
           is_terminating := (is_terminating w \<or>
              (case shutdown_at en of None \<Rightarrow> False | Some t \<Rightarrow> t \<le> c))\<rparr>)"

text \<open>\<^verbatim>\<open>time.sleep\<close> raises \<^verbatim>\<open>ValueError\<close> on a negative length.\<close>

definition py_sleep :: "env \<Rightarrow> int \<Rightarrow> world \<Rightarrow> error + world" where
  "py_sleep en secs w = (if secs < 0 then Inl ValueError else Inr (sleep_for en (nat secs) w))"

definition validation_is_process_alive :: "env \<Rightarrow> string \<Rightarrow> world \<Rightarrow> bool \<times> world" where
  "validation_is_process_alive en signature w =
     (let alive = is_process_alive en (alive_calls w) signature
      in (alive, w\<lparr>alive_calls := Suc (alive_calls w),
                   trace := trace w @ [AliveCheck signature alive]\<rparr>))"

definition validation_check_tunnel_alive ::
  "env \<Rightarrow> forwarding \<Rightarrow> host_tunnel_definitions \<Rightarrow> world \<Rightarrow> bool \<times> world" where
  "validation_check_tunnel_alive en definition configuration w =
     (let healthy = check_tunnel_alive en (probe_calls w) definition configuration
      in (healthy, w\<lparr>probe_calls := Suc (probe_calls w),
                     trace := trace w @ [HealthProbe healthy]\<rparr>))"

section \<open>The process table\<close>

fun find_in :: "string \<Rightarrow> process list \<Rightarrow> process option" where
  "find_in signature [] = None"
| "find_in signature (proc # rest) =
     (let cl = join_blank (cmdline proc)
      in if py_in signature cl \<and> py_in ''autossh'' cl then Some proc
         else find_in signature rest)"

definition find_process_by_signature :: "env \<Rightarrow> string \<Rightarrow> world \<Rightarrow> process option \<times> world" where
  "find_process_by_signature en signature w =
     (find_in signature (process_iter en (iter_calls w)), w\<lparr>iter_calls := Suc (iter_calls w)\<rparr>)"

subsection \<open>Faults of the process library\<close>

text \<open>
  \<^verbatim>\<open>psutil\<close> reads a process when it is asked: \<^verbatim>\<open>cmdline()\<close>, \<^verbatim>\<open>name()\<close> and \<^verbatim>\<open>kill()\<close> raise
  \<^verbatim>\<open>NoSuchProcess\<close>, \<^verbatim>\<open>ZombieProcess\<close> or \<^verbatim>\<open>AccessDenied\<close> when the process has gone, is a
  zombie or belongs to another user, and \<^verbatim>\<open>manager.py\<close> calls them with no handler. Which
  call fails is part of the environment: for a process of snapshot number \<open>k\<close>,
  \<open>cmdline_raises f k proc\<close> is the error that reading its command line raises, if any, and
  likewise for the name and the kill. \<open>find_in_raising\<close> is the scan of
  \<^verbatim>\<open>_find_process_by_signature\<close> with these faults: it stops at the first command line that
  cannot be read. \<open>find_in\<close> above is the scan of a snapshot that can be read throughout; the
  status query and the monitoring loop are modelled on such snapshots.
\<close>

datatype psutil_error = NoSuchProcess | ZombieProcess | AccessDenied

record faults =
  cmdline_raises :: "nat \<Rightarrow> process \<Rightarrow> psutil_error option"
  name_raises :: "nat \<Rightarrow> process \<Rightarrow> psutil_error option"
  kill_raises :: "nat \<Rightarrow> process \<Rightarrow> psutil_error option"

definition no_faults :: faults where
  "no_faults = \<lparr>cmdline_raises = (\<lambda>k proc. None), name_raises = (\<lambda>k proc. None),
                kill_raises = (\<lambda>k proc. None)\<rparr>"

fun find_in_raising ::
  "faults \<Rightarrow> nat \<Rightarrow> string \<Rightarrow> process list \<Rightarrow> psutil_error + process option" where
  "find_in_raising f k signature [] = Inr None"
| "find_in_raising f k signature (proc # rest) =
     (case cmdline_raises f k proc of
        Some e \<Rightarrow> Inl e
      | None \<Rightarrow>
          (let cl = join_blank (cmdline proc)
           in if py_in signature cl \<and> py_in ''autossh'' cl then Inr (Some proc)
              else find_in_raising f k signature rest))"

definition find_process_by_signature_raising ::
  "faults \<Rightarrow> env \<Rightarrow> string \<Rightarrow> world \<Rightarrow> (psutil_error + process option) \<times> world" where
  "find_process_by_signature_raising f en signature w =
     (find_in_raising f (iter_calls w) signature (process_iter en (iter_calls w)),
      w\<lparr>iter_calls := Suc (iter_calls w)\<rparr>)"

section \<open>The status query\<close>

text \<open>The entry of one definition in the snapshot; \<open>st_pid = None\<close> stands for the empty
  string that \<^verbatim>\<open>get_stats\<close> reports when no process was found.\<close>

record definition_status =
  st_pid :: "nat option"
  st_is_alive :: bool
  st_starts_history :: "date list"
  restarts_count :: int

record stats =
  stats_signatures :: "string list"
  status :: "forwarding \<rightharpoonup> definition_status"
  procs_count :: nat
  stats_is_terminating :: bool

fun get_stats_loop ::
  "env \<Rightarrow> forwarding list \<Rightarrow> (forwarding \<rightharpoonup> definition_status) \<Rightarrow> world
     \<Rightarrow> (forwarding \<rightharpoonup> definition_status) \<times> world" where
  "get_stats_loop en [] definitions_status w = (definitions_status, w)"
| "get_stats_loop en (definition # rest) definitions_status w =
     (let (proc, w1) = find_process_by_signature en (create_ssh_forwarding definition) w;
          history = (case starts_history w1 definition of Some h \<Rightarrow> h | None \<Rightarrow> [])
      in get_stats_loop en rest
           (definitions_status(definition \<mapsto>
              \<lparr>st_pid = map_option pid proc,
               st_is_alive = (proc \<noteq> None),
               st_starts_history = history,
               restarts_count = abs (int (length history) - 1)\<rparr>))
           w1)"

definition get_stats :: "env \<Rightarrow> forwarding list \<Rightarrow> world \<Rightarrow> stats \<times> world" where
  "get_stats en definitions w =
     (let (definitions_status, w1) = get_stats_loop en definitions Map.empty w
      in (\<lparr>stats_signatures = signatures w1,
           status = definitions_status,
           procs_count = length (procs w1),
           stats_is_terminating = is_terminating w1\<rparr>, w1))"

section \<open>Launching and supervising a tunnel\<close>

text \<open>\<^verbatim>\<open>_clean_up\<close>: walk a copy of the handle list and drop every handle whose process has
  exited. Removing a handle that is no longer in the list is tolerated, as \<^const>\<open>remove1\<close> is.\<close>

fun clean_up_loop :: "env \<Rightarrow> popen list \<Rightarrow> world \<Rightarrow> world" where
  "clean_up_loop en [] w = w"
| "clean_up_loop en (proc # rest) w =
     (let w1 = emit (Log Debug (''clean_up: Checking if process pid=''
                  @ str_int (int (popen_pid proc)) @ '' is still alive'')) w;
          returncode = poll en (poll_calls w1) proc;
          w2 = w1\<lparr>poll_calls := Suc (poll_calls w1)\<rparr>
      in if returncode \<noteq> None then
           (let w3 = emit (Log Debug (''clean_up: Freeing proc pid=''
                        @ str_int (int (popen_pid proc)))) w2
            in clean_up_loop en rest (w3\<lparr>procs := remove1 proc (procs w3)\<rparr>))
         else clean_up_loop en rest w2)"

definition clean_up :: "env \<Rightarrow> world \<Rightarrow> world" where
  "clean_up en w = clean_up_loop en (procs w) w"

text \<open>The option string of \<^verbatim>\<open>spawn_tunnel\<close> (lines 57 to 61) and the command of
  \<^verbatim>\<open>spawn_ssh_process\<close> (lines 98 to 110).\<close>

definition fmt_s :: "string option \<Rightarrow> string" where
  "fmt_s v = (case v of None \<Rightarrow> ''None'' | Some s \<Rightarrow> s)"

definition dquote :: string where
  "dquote = [CHR 0x22]"

definition squote :: string where
  "squote = [CHR 0x27]"

definition spawn_opts :: "host_tunnel_definitions \<Rightarrow> string" where
  "spawn_opts configuration =
     (if \<not> truthy (ssh_opts configuration) then
        (if truthy (remote_key configuration) then '' -i '' @ fmt_s (remote_key configuration)
         else [])
      else [])"

definition build_cmd :: "host_tunnel_definitions \<Rightarrow> string \<Rightarrow> string" where
  "build_cmd configuration args =
     (if truthy (remote_password configuration)
      then ''sshpass -p '' @ dquote @ fmt_s (remote_password configuration) @ dquote @ '' ''
      else [])
     @ ''autossh -M 0 -N -f -o '' @ squote @ ''PubkeyAuthentication=yes'' @ squote
     @ '' -o '' @ squote @ ''PasswordAuthentication=no'' @ squote @ '' -nT ''
     @ args @ '' ''
     @ (''-p '' @ str_int (remote_port configuration) @ '' '' @ remote_user configuration
        @ ''@'' @ remote_host configuration)"

text \<open>Lines 112 to 118: log, start the shell command, record the handle, wait ten seconds.\<close>

definition launch :: "env \<Rightarrow> string \<Rightarrow> world \<Rightarrow> popen \<times> world" where
  "launch en cmd w =
     (let w1 = emit (Log Info (''Spawning '' @ cmd)) w;
          proc = \<lparr>handle_id = popen_calls w1, popen_pid = new_pid en (popen_calls w1) cmd\<rparr>;
          w2 = (emit (Popen cmd) w1)\<lparr>popen_calls := Suc (popen_calls w1)\<rparr>;
          w3 = w2\<lparr>procs := procs w2 @ [proc]\<rparr>
      in (proc, sleep_for en 10 w3))"

text \<open>\<^verbatim>\<open>_carefully_sleep\<close>: one check of the flag before each one-second tick, none after the
  last. A negative \<open>sleep_time\<close> gives an empty range.\<close>

fun carefully_sleep_loop :: "env \<Rightarrow> nat \<Rightarrow> world \<Rightarrow> bool \<times> world" where
  "carefully_sleep_loop en 0 w = (True, w)"
| "carefully_sleep_loop en (Suc k) w =
     (if is_terminating w then
        (False, emit (Log Debug ''Careful sleep: got termination signal'') w)
      else carefully_sleep_loop en k (sleep_for en 1 w))"

definition carefully_sleep :: "env \<Rightarrow> int \<Rightarrow> world \<Rightarrow> bool \<times> world" where
  "carefully_sleep en sleep_time w = carefully_sleep_loop en (nat sleep_time) w"

text \<open>One pass through the body of the \<^verbatim>\<open>while True\<close> of \<^verbatim>\<open>_tunnel_loop\<close>, and what the
  loop does next: go round again, return, call \<^verbatim>\<open>spawn_ssh_process\<close>, or propagate an
  exception.\<close>

datatype step = Continue world | Exit world | Relaunch world | Fail error world

fun step_world :: "step \<Rightarrow> world" where
  "step_world (Continue w) = w"
| "step_world (Exit w) = w"
| "step_world (Relaunch w) = w"
| "step_world (Fail e w) = w"


fun is_exit :: "step \<Rightarrow> bool" where
  "is_exit (Exit w) = True"
| "is_exit s = False"


definition kill_existing :: "env \<Rightarrow> string \<Rightarrow> world \<Rightarrow> world" where
  "kill_existing en signature w =
     (let (proc, w1) = find_process_by_signature en signature w
      in case proc of Some p \<Rightarrow> emit (ProcessKill (pid p)) w1 | None \<Rightarrow> w1)"

definition health_failed ::
  "env \<Rightarrow> forwarding \<Rightarrow> host_tunnel_definitions \<Rightarrow> string \<Rightarrow> world \<Rightarrow> step" where
  "health_failed en definition configuration signature w =
     (let w1 = emit (Log Error (''The health check '' @ dquote @ validate_method (validate definition)
                  @ dquote @ '' failed for signature '' @ dquote @ signature @ dquote)) w;
          time_to_wait = wait_time_before_restart (validate definition)
      in case py_sleep en time_to_wait w1 of
           Inl e \<Rightarrow> Fail e w1
         | Inr w2 \<Rightarrow>
             (let (recovered, w3) =
                    (if time_to_wait \<noteq> 0
                     then validation_check_tunnel_alive en definition configuration w2
                     else (False, w2))
              in if recovered then
                   Continue (emit (Log Info (''Tunnel '' @ dquote @ signature @ dquote
                                      @ '' was recovered with restart'')) w3)
                 else if kill_existing_tunnel_on_failure (validate definition)
                   then Relaunch (kill_existing en signature w3)
                   else Relaunch w3))"

definition tunnel_iteration ::
  "env \<Rightarrow> forwarding \<Rightarrow> host_tunnel_definitions \<Rightarrow> string \<Rightarrow> world \<Rightarrow> step" where
  "tunnel_iteration en definition configuration signature w =
     (let (awake, w1) = carefully_sleep en (interval (validate definition)) w
      in if \<not> awake then Exit w1
         else
           (let w2 = emit (Log Debug (''Running checks for signature '' @ dquote @ signature
                         @ dquote)) w1;
                (alive, w3) = validation_is_process_alive en signature w2
            in if \<not> alive then
                 Relaunch (emit (Log Error (''The tunnel process exited for signature ''
                                    @ dquote @ signature @ dquote)) w3)
               else
                 (let (healthy, w4) = validation_check_tunnel_alive en definition configuration w3
                  in if \<not> healthy then health_failed en definition configuration signature w4
                     else Continue w4)))"

text \<open>
  \<^verbatim>\<open>spawn_ssh_process\<close> and \<^verbatim>\<open>_tunnel_loop\<close> call each other without bound, so both take
  fuel: one unit per call of \<^verbatim>\<open>spawn_ssh_process\<close> and per pass of the loop.
  \<open>OutOfFuel w\<close> is the world reached when the fuel ran out. The handle made by \<^verbatim>\<open>Popen\<close> has no
  pipes, so reading its streams for the error message always falls into the \<^verbatim>\<open>except\<close>
  branch and both texts are empty.
\<close>

datatype outcome = Returned world | Raised error world | OutOfFuel world

fun world_of :: "outcome \<Rightarrow> world" where
  "world_of (Returned w) = w"
| "world_of (Raised e w) = w"
| "world_of (OutOfFuel w) = w"

fun spawn_ssh_process ::
    "nat \<Rightarrow> env \<Rightarrow> string \<Rightarrow> forwarding \<Rightarrow> host_tunnel_definitions \<Rightarrow> string \<Rightarrow> world \<Rightarrow> outcome"
  and tunnel_loop ::
    "nat \<Rightarrow> env \<Rightarrow> forwarding \<Rightarrow> host_tunnel_definitions \<Rightarrow> string \<Rightarrow> string \<Rightarrow> world \<Rightarrow> outcome"
where
  "spawn_ssh_process 0 en args definition configuration signature w = OutOfFuel w"
| "spawn_ssh_process (Suc n) en args definition configuration signature w =
     (let w1 = clean_up en w
      in if is_terminating w1 then Returned w1
         else
           (let cmd = build_cmd configuration args;
                (proc, w2) = launch en cmd w1;
                (alive, w3) = validation_is_process_alive en signature w2
            in if \<not> alive then
                 (let w4 = emit (Log Error (''Cannot spawn '' @ cmd @ '', stdout='' @ []
                              @ '', stderr='' @ [])) w3
                  in spawn_ssh_process n en args definition configuration signature
                       (sleep_for en 15 w4))
               else
                 tunnel_loop n en definition configuration signature args
                   (emit (Log Info (''Process for '' @ dquote @ signature @ dquote
                      @ '' survived initialization, got pid='' @ str_int (int (popen_pid proc))))
                      w3)))"
| "tunnel_loop 0 en definition configuration signature args w = OutOfFuel w"
| "tunnel_loop (Suc n) en definition configuration signature args w =
     (case tunnel_iteration en definition configuration signature w of
        Continue w1 \<Rightarrow> tunnel_loop n en definition configuration signature args w1
      | Exit w1 \<Rightarrow> Returned w1
      | Relaunch w1 \<Rightarrow> spawn_ssh_process n en args definition configuration signature w1
      | Fail e w1 \<Rightarrow> Raised e w1)"

declare spawn_ssh_process.simps [simp del]
declare tunnel_loop.simps [simp del]

definition spawn_tunnel ::
  "nat \<Rightarrow> env \<Rightarrow> forwarding \<Rightarrow> host_tunnel_definitions \<Rightarrow> world \<Rightarrow> outcome" where
  "spawn_tunnel n en definition configuration w =
     (let opts = spawn_opts configuration;
          signature = create_ssh_forwarding definition;
          forwarding = opts @ '' '' @ signature;
          w1 = emit (Log Info (''Created SSH args: '' @ forwarding)) w;
          w2 = w1\<lparr>signatures := signatures w1 @ [signature]\<rparr>;
          history = (case starts_history w2 definition of None \<Rightarrow> [] | Some h \<Rightarrow> h);
          w3 = w2\<lparr>starts_history := (starts_history w2)(definition \<mapsto>
                    history @ [today en (clock w2)])\<rparr>
      in spawn_ssh_process n en forwarding definition configuration signature w3)"

section \<open>Shutdown\<close>








fun close_procs :: "popen list \<Rightarrow> world \<Rightarrow> world" where
  "close_procs [] w = w"
| "close_procs (proc # rest) w =
     close_procs rest
       (emit (PopenKill proc) (emit (Log Info (''Killing '' @ str_int (int (popen_pid proc)))) w))"


section \<open>Example values\<close>

text \<open>A definition, a host configuration, a process table and an environment on which the
  properties below are run.\<close>

definition fwd_ex :: forwarding where
  "fwd_ex = \<lparr>create_ssh_forwarding = ''-L 8080:localhost:80'',
             validate = \<lparr>validate_method = ''tcp'', interval = 1, wait_time_before_restart = 1,
                         kill_existing_tunnel_on_failure = True\<rparr>\<rparr>"

definition cfg_ex :: host_tunnel_definitions where
  "cfg_ex = \<lparr>remote_user = ''tunnel'', remote_host = ''example.org'', remote_port = 22,
             remote_key = Some ''/keys/id_rsa'', remote_password = Some ''secret'',
             ssh_opts = None\<rparr>"

definition proc_sshd :: process where
  "proc_sshd = \<lparr>pid = 7, pname = ''sshd'', cmdline = [''sshd'', ''-D'']\<rparr>"

definition proc_tunnel :: process where
  "proc_tunnel = \<lparr>pid = 8, pname = ''autossh'',
                  cmdline = [''autossh'', ''-M'', ''0'', ''-L'', ''8080:localhost:80'']\<rparr>"

definition proc_twin :: process where
  "proc_twin = \<lparr>pid = 9, pname = ''autossh'',
                cmdline = [''autossh'', ''-M'', ''0'', ''-L'', ''8080:localhost:80'']\<rparr>"

definition env_ex :: env where
  "env_ex = \<lparr>is_process_alive = (\<lambda>k s. True),
             check_tunnel_alive = (\<lambda>k d c. False),
             process_iter = (\<lambda>k. [proc_sshd, proc_tunnel, proc_twin]),
             new_pid = (\<lambda>k cmd. 100 + k),
             poll = (\<lambda>k h. None),
             today = (\<lambda>t. t div 86400),
             shutdown_at = None\<rparr>"

text \<open>An environment in which the first two start-up verifications fail.\<close>

definition env_retry :: env where
  "env_retry = env_ex\<lparr>is_process_alive := (\<lambda>k s. 2 \<le> k)\<rparr>"

text \<open>An environment in which the main thread requests termination at clock value 1.\<close>

definition env_late :: env where
  "env_late = env_ex\<lparr>shutdown_at := Some 1\<rparr>"




text \<open>Faults: the command line of \<open>proc_sshd\<close>, another user's process, cannot be read; and
  \<open>proc_tunnel\<close> is a zombie in every snapshot after the first. A manager that has registered
  one signature and holds one handle.\<close>

definition faults_denied :: faults where
  "faults_denied = no_faults\<lparr>cmdline_raises :=
      (\<lambda>k proc. if pid proc = 7 then Some AccessDenied else None)\<rparr>"



section \<open>Properties\<close>

subsection \<open>Strings and traces\<close>

lemma starts_with_iff: "starts_with s t \<longleftrightarrow> (\<exists>b. t = s @ b)"
  by (induction s t rule: starts_with.induct) auto

lemma py_in_iff: "py_in s t \<longleftrightarrow> (\<exists>a b. t = a @ s @ b)"
proof (induction t)
  case Nil
  then show ?case by auto
next
  case (Cons c t)
  show ?case
  proof
    assume "py_in s (c # t)"
    then consider "starts_with s (c # t)" | "py_in s t" by auto
    then show "\<exists>a b. c # t = a @ s @ b"
    proof cases
      case 1
      then obtain b where "c # t = s @ b" by (auto simp: starts_with_iff)
      then have "c # t = [] @ s @ b" by simp
      then show ?thesis by blast
    next
      case 2
      then obtain a b where "t = a @ s @ b" using Cons.IH by blast
      then have "c # t = (c # a) @ s @ b" by simp
      then show ?thesis by blast
    qed
  next
    assume "\<exists>a b. c # t = a @ s @ b"
    then obtain a b where ab: "c # t = a @ s @ b" by blast
    show "py_in s (c # t)"
    proof (cases a)
      case Nil
      with ab have "starts_with s (c # t)" by (auto simp: starts_with_iff)
      then show ?thesis by simp
    next
      case (Cons x a')
      with ab have "t = a' @ s @ b" by simp
      then have "py_in s t" using Cons.IH by blast
      then show ?thesis by simp
    qed
  qed
qed

lemma spawned_append [simp]: "spawned (xs @ ys) = spawned xs @ spawned ys"
  by (induction xs) (simp_all split: event.splits)

lemma killed_append [simp]: "killed (xs @ ys) = killed xs @ killed ys"
  by (induction xs) (simp_all split: event.splits)

subsection \<open>Finding a process by signature\<close>

lemma dropWhile_first:
  "(\<exists>rest. dropWhile P xs = y # rest) \<longleftrightarrow>
     (\<exists>pre post. xs = pre @ y # post \<and> (\<forall>q \<in> set pre. P q) \<and> \<not> P y)"
proof
  assume "\<exists>rest. dropWhile P xs = y # rest"
  then obtain rest where "dropWhile P xs = y # rest" by blast
  then have "xs = takeWhile P xs @ y # rest" "\<not> P y"
    by (simp_all add: dropWhile_eq_Cons_conv)
  moreover have "\<forall>q \<in> set (takeWhile P xs). P q"
    by (auto dest: set_takeWhileD)
  ultimately show "\<exists>pre post. xs = pre @ y # post \<and> (\<forall>q \<in> set pre. P q) \<and> \<not> P y"
    by blast
next
  assume "\<exists>pre post. xs = pre @ y # post \<and> (\<forall>q \<in> set pre. P q) \<and> \<not> P y"
  then obtain pre post where "xs = pre @ y # post" "\<forall>q \<in> set pre. P q" "\<not> P y"
    by blast
  then have "dropWhile P xs = y # post"
    by simp
  then show "\<exists>rest. dropWhile P xs = y # rest" by blast
qed

lemma find_in_raising_scan:
  "find_in_raising f k signature ps =
     (case dropWhile (\<lambda>q. cmdline_raises f k q = None
                          \<and> \<not> (py_in signature (join_blank (cmdline q))
                                \<and> py_in ''autossh'' (join_blank (cmdline q)))) ps of
        [] \<Rightarrow> Inr None
      | p # rest \<Rightarrow> (case cmdline_raises f k p of Some e \<Rightarrow> Inl e | None \<Rightarrow> Inr (Some p)))"
  by (induction ps) (auto simp: Let_def split: option.splits)

lemma find_in_raising_no_faults:
  "find_in_raising no_faults k signature ps = Inr (find_in signature ps)"
  by (induction ps) (simp_all add: no_faults_def Let_def)

lemma find_process_by_signature_no_faults:
  "find_process_by_signature_raising no_faults en signature w =
     (Inr (fst (find_process_by_signature en signature w)),
      snd (find_process_by_signature en signature w))"
  by (simp add: find_process_by_signature_raising_def find_process_by_signature_def
      find_in_raising_no_faults)

text \<open>
  Claim C8, as amended. \<^verbatim>\<open>_find_process_by_signature\<close> reads the command lines of the
  snapshot in order. It returns a process exactly when that process is the first whose joined
  command line contains both the signature and the text \<^verbatim>\<open>autossh\<close> and every command line
  up to and including its own could be read. It returns \<^verbatim>\<open>None\<close> exactly when every command
  line could be read and none contains both. It raises an error exactly when reading a command
  line raises it before any match was found; that can happen when no process matches. Here
  \<open>py_in s t\<close> says that \<open>s\<close> is a substring of \<open>t\<close>.
\<close>

theorem find_process_by_signature_reads_in_order:
  "(fst (find_process_by_signature_raising f en signature w) = Inr (Some proc) \<longleftrightarrow>
      (\<exists>pre post. process_iter en (iter_calls w) = pre @ proc # post
         \<and> (\<forall>q \<in> set pre. cmdline_raises f (iter_calls w) q = None
               \<and> \<not> (py_in signature (join_blank (cmdline q))
                     \<and> py_in ''autossh'' (join_blank (cmdline q))))
         \<and> cmdline_raises f (iter_calls w) proc = None
         \<and> py_in signature (join_blank (cmdline proc))
         \<and> py_in ''autossh'' (join_blank (cmdline proc))))
   \<and> (fst (find_process_by_signature_raising f en signature w) = Inr None \<longleftrightarrow>
      (\<forall>q \<in> set (process_iter en (iter_calls w)).
         cmdline_raises f (iter_calls w) q = None
         \<and> \<not> (py_in signature (join_blank (cmdline q))
               \<and> py_in ''autossh'' (join_blank (cmdline q)))))
   \<and> (fst (find_process_by_signature_raising f en signature w) = Inl e \<longleftrightarrow>
      (\<exists>pre p post. process_iter en (iter_calls w) = pre @ p # post
         \<and> (\<forall>q \<in> set pre. cmdline_raises f (iter_calls w) q = None
               \<and> \<not> (py_in signature (join_blank (cmdline q))
                     \<and> py_in ''autossh'' (join_blank (cmdline q))))
         \<and> cmdline_raises f (iter_calls w) p = Some e))
   \<and> (py_in s t \<longleftrightarrow> (\<exists>a b. t = a @ s @ b))"
proof -
  let ?k = "iter_calls w"
  let ?tbl = "process_iter en ?k"
  let ?P = "\<lambda>q. cmdline_raises f ?k q = None
                 \<and> \<not> (py_in signature (join_blank (cmdline q))
                       \<and> py_in ''autossh'' (join_blank (cmdline q)))"
  let ?r = "fst (find_process_by_signature_raising f en signature w)"
  have r: "?r = (case dropWhile ?P ?tbl of
        [] \<Rightarrow> Inr None
      | p # rest \<Rightarrow> (case cmdline_raises f ?k p of Some e \<Rightarrow> Inl e | None \<Rightarrow> Inr (Some p)))"
    by (simp add: find_process_by_signature_raising_def find_in_raising_scan)
  let ?pick = "\<lambda>d. case d of
        [] \<Rightarrow> Inr None
      | p # rest \<Rightarrow> (case cmdline_raises f ?k p of Some e \<Rightarrow> Inl e | None \<Rightarrow> Inr (Some p))"
  have pick_found: "?pick d = Inr (Some proc) \<longleftrightarrow>
      (\<exists>rest. d = proc # rest) \<and> cmdline_raises f ?k proc = None" for d
    by (cases d) (auto split: option.splits)
  have pick_none: "?pick d = Inr None \<longleftrightarrow> d = []" for d
    by (cases d) (auto split: option.splits)
  have pick_err: "?pick d = Inl e \<longleftrightarrow>
      (\<exists>p. (\<exists>rest. d = p # rest) \<and> cmdline_raises f ?k p = Some e)" for d
    by (cases d) (auto split: option.splits)
  have found: "?r = Inr (Some proc) \<longleftrightarrow>
      (\<exists>rest. dropWhile ?P ?tbl = proc # rest) \<and> cmdline_raises f ?k proc = None"
    unfolding r by (rule pick_found)
  have none: "?r = Inr None \<longleftrightarrow> dropWhile ?P ?tbl = []"
    unfolding r by (rule pick_none)
  have err: "?r = Inl e \<longleftrightarrow>
      (\<exists>p. (\<exists>rest. dropWhile ?P ?tbl = p # rest) \<and> cmdline_raises f ?k p = Some e)"
    unfolding r by (rule pick_err)
  have a: "?r = Inr (Some proc) \<longleftrightarrow>
      (\<exists>pre post. ?tbl = pre @ proc # post \<and> (\<forall>q \<in> set pre. ?P q)
         \<and> cmdline_raises f ?k proc = None
         \<and> py_in signature (join_blank (cmdline proc))
         \<and> py_in ''autossh'' (join_blank (cmdline proc)))"
    unfolding found dropWhile_first by blast
  have b: "?r = Inr None \<longleftrightarrow> (\<forall>q \<in> set ?tbl. ?P q)"
    unfolding none by simp
  have c: "?r = Inl e \<longleftrightarrow>
      (\<exists>pre p post. ?tbl = pre @ p # post \<and> (\<forall>q \<in> set pre. ?P q)
         \<and> cmdline_raises f ?k p = Some e)"
    unfolding err dropWhile_first by auto
  from a b c py_in_iff [of s t] show ?thesis by blast
qed

theorem find_process_by_signature_reads_in_order_witness:
  "fst (find_process_by_signature_raising no_faults env_ex ''-L 8080:localhost:80'' init)
     = Inr (Some proc_tunnel)
   \<and> (\<exists>pre post. process_iter env_ex (iter_calls init) = pre @ proc_tunnel # post
         \<and> (\<forall>q \<in> set pre. cmdline_raises no_faults (iter_calls init) q = None
               \<and> \<not> (py_in ''-L 8080:localhost:80'' (join_blank (cmdline q))
                     \<and> py_in ''autossh'' (join_blank (cmdline q))))
         \<and> cmdline_raises no_faults (iter_calls init) proc_tunnel = None
         \<and> py_in ''-L 8080:localhost:80'' (join_blank (cmdline proc_tunnel))
         \<and> py_in ''autossh'' (join_blank (cmdline proc_tunnel)))"
proof -
  have found: "fst (find_process_by_signature_raising no_faults env_ex ''-L 8080:localhost:80''
                 init) = Inr (Some proc_tunnel)"
    by (simp add: find_process_by_signature_raising_def no_faults_def env_ex_def init_def
        proc_sshd_def proc_tunnel_def proc_twin_def)
  have first: "fst (find_process_by_signature_raising no_faults env_ex ''-L 8080:localhost:80''
                 init) = Inr (Some proc_tunnel) \<longleftrightarrow>
      (\<exists>pre post. process_iter env_ex (iter_calls init) = pre @ proc_tunnel # post
         \<and> (\<forall>q \<in> set pre. cmdline_raises no_faults (iter_calls init) q = None
               \<and> \<not> (py_in ''-L 8080:localhost:80'' (join_blank (cmdline q))
                     \<and> py_in ''autossh'' (join_blank (cmdline q))))
         \<and> cmdline_raises no_faults (iter_calls init) proc_tunnel = None
         \<and> py_in ''-L 8080:localhost:80'' (join_blank (cmdline proc_tunnel))
         \<and> py_in ''autossh'' (join_blank (cmdline proc_tunnel)))"
    by (rule conjunct1 [OF find_process_by_signature_reads_in_order])
  from found first [THEN iffD1, OF found] show ?thesis by (rule conjI)
qed

text \<open>No command line of the table contains the signature \<^verbatim>\<open>-R 9:localhost:9\<close>, and the
  lookup raises \<^verbatim>\<open>AccessDenied\<close> at the first process.\<close>

theorem find_process_by_signature_raises_counterexample:
  "find_in ''-R 9:localhost:9'' (process_iter env_ex (iter_calls init)) = None
   \<and> fst (find_process_by_signature_raising faults_denied env_ex ''-R 9:localhost:9'' init)
       = Inl AccessDenied"
  by (simp add: find_process_by_signature_raising_def faults_denied_def no_faults_def
      env_ex_def init_def proc_sshd_def proc_tunnel_def proc_twin_def)

subsection \<open>The handle clean-up touches only the handle list and the log\<close>

lemma clean_up_loop_is_terminating [simp]:
  "is_terminating (clean_up_loop en ps w) = is_terminating w"
  by (induction ps arbitrary: w) (simp_all add: Let_def emit_def)

lemma clean_up_loop_starts_history [simp]:
  "starts_history (clean_up_loop en ps w) = starts_history w"
  by (induction ps arbitrary: w) (simp_all add: Let_def emit_def)

lemma clean_up_loop_signatures [simp]:
  "signatures (clean_up_loop en ps w) = signatures w"
  by (induction ps arbitrary: w) (simp_all add: Let_def emit_def)

lemma clean_up_loop_clock [simp]:
  "clock (clean_up_loop en ps w) = clock w"
  by (induction ps arbitrary: w) (simp_all add: Let_def emit_def)

lemma clean_up_loop_alive_calls [simp]:
  "alive_calls (clean_up_loop en ps w) = alive_calls w"
  by (induction ps arbitrary: w) (simp_all add: Let_def emit_def)

lemma clean_up_loop_probe_calls [simp]:
  "probe_calls (clean_up_loop en ps w) = probe_calls w"
  by (induction ps arbitrary: w) (simp_all add: Let_def emit_def)

lemma clean_up_loop_iter_calls [simp]:
  "iter_calls (clean_up_loop en ps w) = iter_calls w"
  by (induction ps arbitrary: w) (simp_all add: Let_def emit_def)

lemma clean_up_loop_popen_calls [simp]:
  "popen_calls (clean_up_loop en ps w) = popen_calls w"
  by (induction ps arbitrary: w) (simp_all add: Let_def emit_def)

lemma clean_up_loop_spawned [simp]:
  "spawned (trace (clean_up_loop en ps w)) = spawned (trace w)"
  by (induction ps arbitrary: w) (simp_all add: Let_def emit_def)

lemma clean_up_loop_killed [simp]:
  "killed (trace (clean_up_loop en ps w)) = killed (trace w)"
  by (induction ps arbitrary: w) (simp_all add: Let_def emit_def)

lemma clean_up_loop_procs_subset:
  "set (procs (clean_up_loop en ps w)) \<subseteq> set (procs w)"
proof (induction ps arbitrary: w)
  case Nil
  then show ?case by simp
next
  case (Cons p ps)
  let ?w2 = "(emit (Log Debug (''clean_up: Checking if process pid=''
                @ str_int (int (popen_pid p)) @ '' is still alive'')) w)
              \<lparr>poll_calls := Suc (poll_calls w)\<rparr>"
  show ?case
  proof (cases "poll en (poll_calls w) p")
    case None
    then show ?thesis using Cons.IH [of ?w2]
      by (simp add: Let_def emit_def)
  next
    case (Some rc)
    let ?w3 = "emit (Log Debug (''clean_up: Freeing proc pid=''
                 @ str_int (int (popen_pid p)))) ?w2"
    have "set (procs (clean_up_loop en ps (?w3\<lparr>procs := remove1 p (procs ?w3)\<rparr>)))
            \<subseteq> set (remove1 p (procs w))"
      using Cons.IH [of "?w3\<lparr>procs := remove1 p (procs ?w3)\<rparr>"] by (simp add: emit_def)
    moreover have "set (remove1 p (procs w)) \<subseteq> set (procs w)"
      by (rule set_remove1_subset)
    ultimately show ?thesis using Some by (simp add: Let_def emit_def)
  qed
qed

lemma clean_up_loop_procs_length:
  "length (procs (clean_up_loop en ps w)) \<le> length (procs w)"
proof (induction ps arbitrary: w)
  case Nil
  then show ?case by simp
next
  case (Cons p ps)
  let ?w2 = "(emit (Log Debug (''clean_up: Checking if process pid=''
                @ str_int (int (popen_pid p)) @ '' is still alive'')) w)
              \<lparr>poll_calls := Suc (poll_calls w)\<rparr>"
  have shorter: "length (remove1 p (procs w)) \<le> length (procs w)"
    by (simp add: length_remove1)
  show ?case
  proof (cases "poll en (poll_calls w) p")
    case None
    then show ?thesis using Cons.IH [of ?w2]
      by (simp add: Let_def emit_def)
  next
    case (Some rc)
    let ?w3 = "emit (Log Debug (''clean_up: Freeing proc pid=''
                 @ str_int (int (popen_pid p)))) ?w2"
    have "length (procs (clean_up_loop en ps (?w3\<lparr>procs := remove1 p (procs ?w3)\<rparr>)))
            \<le> length (remove1 p (procs w))"
      using Cons.IH [of "?w3\<lparr>procs := remove1 p (procs ?w3)\<rparr>"] by (simp add: emit_def)
    with shorter show ?thesis using Some by (simp add: Let_def emit_def)
  qed
qed

text \<open>
  Claim C9. When the termination flag is set at the check that follows the handle clean-up,
  \<^verbatim>\<open>spawn_ssh_process\<close> returns there: the result is the world left by the clean-up, in which
  no command was started, no handle was added to the list, and neither health oracle was
  asked, so the monitoring loop was not entered.
\<close>

theorem spawn_ssh_process_terminating_returns:
  assumes "is_terminating (clean_up en w)"
  shows "spawn_ssh_process (Suc n) en args definition configuration signature w
           = Returned (clean_up en w)
       \<and> spawned (trace (clean_up en w)) = spawned (trace w)
       \<and> popen_calls (clean_up en w) = popen_calls w
       \<and> set (procs (clean_up en w)) \<subseteq> set (procs w)
       \<and> length (procs (clean_up en w)) \<le> length (procs w)
       \<and> alive_calls (clean_up en w) = alive_calls w
       \<and> probe_calls (clean_up en w) = probe_calls w"
proof -
  have "spawn_ssh_process (Suc n) en args definition configuration signature w
           = Returned (clean_up en w)"
    using assms by (simp add: spawn_ssh_process.simps Let_def)
  moreover have "set (procs (clean_up en w)) \<subseteq> set (procs w)"
    unfolding clean_up_def by (rule clean_up_loop_procs_subset)
  moreover have "length (procs (clean_up en w)) \<le> length (procs w)"
    unfolding clean_up_def by (rule clean_up_loop_procs_length)
  ultimately show ?thesis by (simp add: clean_up_def)
qed

theorem spawn_ssh_process_terminating_returns_witness:
  "is_terminating (clean_up env_ex (init\<lparr>is_terminating := True\<rparr>))
   \<and> spawn_ssh_process (Suc 0) env_ex '' -L 8080:localhost:80'' fwd_ex cfg_ex
        ''-L 8080:localhost:80'' (init\<lparr>is_terminating := True\<rparr>)
      = Returned (init\<lparr>is_terminating := True\<rparr>)"
proof -
  have flag: "is_terminating (clean_up env_ex (init\<lparr>is_terminating := True\<rparr>))"
    by (simp add: clean_up_def)
  have same: "clean_up env_ex (init\<lparr>is_terminating := True\<rparr>) = init\<lparr>is_terminating := True\<rparr>"
    by (simp add: clean_up_def init_def)
  from spawn_ssh_process_terminating_returns [OF flag, of 0 "'' -L 8080:localhost:80''"
      fwd_ex cfg_ex "''-L 8080:localhost:80''"] flag same
  show ?thesis by simp
qed

subsection \<open>The status query\<close>

lemma get_stats_loop_restarts_count:
  "map_option restarts_count (fst (get_stats_loop en ds st w) d) =
     (if d \<in> set ds
      then Some (abs (int (length (case starts_history w d of Some h \<Rightarrow> h | None \<Rightarrow> [])) - 1))
      else map_option restarts_count (st d))"
proof (induction ds arbitrary: st w)
  case Nil
  then show ?case by simp
next
  case (Cons x xs)
  show ?case
    by (simp add: Cons.IH Let_def find_process_by_signature_def)
qed

lemma get_stats_restarts_count:
  "d \<in> set ds \<Longrightarrow>
   map_option restarts_count (status (fst (get_stats en ds w)) d) =
     Some (abs (int (length (case starts_history w d of Some h \<Rightarrow> h | None \<Rightarrow> [])) - 1))"
  using get_stats_loop_restarts_count [of en ds Map.empty w d]
  by (simp add: get_stats_def case_prod_beta)

text \<open>
  Claim C1 says that the reported \<open>restarts_count\<close> is \<open>max (len - 1) 0\<close>, so 0 for a definition
  that was never spawned. \<^verbatim>\<open>get_stats\<close> computes \<open>abs (len - 1)\<close>: on a manager that has
  spawned nothing, the count reported for any definition is 1.
\<close>

theorem get_stats_never_spawned:
  "map_option restarts_count (status (fst (get_stats en [d] init)) d) = Some 1"
  using get_stats_restarts_count [of d "[d]" en init] by (simp add: init_def)

subsection \<open>The cancellable sleep\<close>

lemma tunnel_iteration_zero_interval:
  assumes "interval (validate d) = 0"
  shows "\<not> is_exit (tunnel_iteration en d c sig w)"
    and "alive_calls (step_world (tunnel_iteration en d c sig w)) = Suc (alive_calls w)"
  using assms
  by (simp_all add: tunnel_iteration_def carefully_sleep_def Let_def
      validation_is_process_alive_def validation_check_tunnel_alive_def emit_def
      health_failed_def py_sleep_def sleep_for_def kill_existing_def find_process_by_signature_def
      split: option.splits)

lemma tunnel_iteration_zero_healthy:
  assumes "interval (validate d) = 0"
    and "is_process_alive en (alive_calls w) sig"
    and "check_tunnel_alive en (probe_calls w) d c"
  shows "\<exists>w1. tunnel_iteration en d c sig w = Continue w1
            \<and> alive_calls w1 = Suc (alive_calls w) \<and> probe_calls w1 = Suc (probe_calls w)
            \<and> is_terminating w1 = is_terminating w"
  using assms
  by (simp add: tunnel_iteration_def carefully_sleep_def Let_def
      validation_is_process_alive_def validation_check_tunnel_alive_def emit_def)

lemma tunnel_loop_zero_interval_runs_on:
  assumes "interval (validate d) = 0"
    and "\<forall>k. is_process_alive en k sig"
    and "\<forall>k. check_tunnel_alive en k d c"
  shows "\<exists>w1. tunnel_loop n en d c sig args w = OutOfFuel w1
            \<and> alive_calls w1 = alive_calls w + n \<and> is_terminating w1 = is_terminating w"
proof (induction n arbitrary: w)
  case 0
  then show ?case by (simp add: tunnel_loop.simps)
next
  case (Suc n)
  obtain w1 where s: "tunnel_iteration en d c sig w = Continue w1"
      "alive_calls w1 = Suc (alive_calls w)" "is_terminating w1 = is_terminating w"
    using tunnel_iteration_zero_healthy [of d en w sig c] assms by blast
  obtain w2 where "tunnel_loop n en d c sig args w1 = OutOfFuel w2"
      "alive_calls w2 = alive_calls w1 + n" "is_terminating w2 = is_terminating w1"
    using Suc.IH [of w1] by blast
  with s show ?case by (simp add: tunnel_loop.simps)
qed

text \<open>
  Claim C10. With \<open>sleep_time = 0\<close> the cancellable sleep returns true and leaves the world as
  it was, whatever the termination flag says: the flag has no part in the result. So a pass
  of the monitoring loop of a tunnel whose check interval is 0 never returns at the sleep: it
  always goes on to ask whether the process is alive. If the process and the tunnel keep
  answering healthy, the loop is still running after any number of passes, with the flag as
  it found it, set or not.
\<close>

theorem carefully_sleep_zero_not_cancellable:
  "carefully_sleep en 0 w = (True, w)
   \<and> (interval (validate d) = 0 \<longrightarrow>
        \<not> is_exit (tunnel_iteration en d c sig w)
        \<and> alive_calls (step_world (tunnel_iteration en d c sig w)) = Suc (alive_calls w))
   \<and> (interval (validate d) = 0 \<and> (\<forall>k. is_process_alive en k sig)
        \<and> (\<forall>k. check_tunnel_alive en k d c) \<longrightarrow>
        (\<exists>w1. tunnel_loop n en d c sig args w = OutOfFuel w1
              \<and> alive_calls w1 = alive_calls w + n \<and> is_terminating w1 = is_terminating w))"
proof -
  have "carefully_sleep en 0 w = (True, w)"
    by (simp add: carefully_sleep_def)
  then show ?thesis
    using tunnel_iteration_zero_interval [of d en c sig w]
      tunnel_loop_zero_interval_runs_on [of d en sig c n args w]
    by blast
qed

theorem carefully_sleep_zero_not_cancellable_witness:
  "interval (validate (fwd_ex\<lparr>validate := (validate fwd_ex)\<lparr>interval := 0\<rparr>\<rparr>)) = 0
   \<and> is_terminating (init\<lparr>is_terminating := True\<rparr>)
   \<and> carefully_sleep (env_ex\<lparr>check_tunnel_alive := \<lambda>k d c. True\<rparr>) 0
        (init\<lparr>is_terminating := True\<rparr>) = (True, init\<lparr>is_terminating := True\<rparr>)
   \<and> \<not> is_exit (tunnel_iteration (env_ex\<lparr>check_tunnel_alive := \<lambda>k d c. True\<rparr>)
          (fwd_ex\<lparr>validate := (validate fwd_ex)\<lparr>interval := 0\<rparr>\<rparr>) cfg_ex
          ''-L 8080:localhost:80'' (init\<lparr>is_terminating := True\<rparr>))
   \<and> (\<exists>w1. tunnel_loop 3 (env_ex\<lparr>check_tunnel_alive := \<lambda>k d c. True\<rparr>)
          (fwd_ex\<lparr>validate := (validate fwd_ex)\<lparr>interval := 0\<rparr>\<rparr>) cfg_ex
          ''-L 8080:localhost:80'' '' -L 8080:localhost:80'' (init\<lparr>is_terminating := True\<rparr>)
            = OutOfFuel w1
          \<and> alive_calls w1 = 3 \<and> is_terminating w1)"
  using carefully_sleep_zero_not_cancellable [of "env_ex\<lparr>check_tunnel_alive := \<lambda>k d c. True\<rparr>"
      "init\<lparr>is_terminating := True\<rparr>" "fwd_ex\<lparr>validate := (validate fwd_ex)\<lparr>interval := 0\<rparr>\<rparr>"
      cfg_ex "''-L 8080:localhost:80''" 3 "'' -L 8080:localhost:80''"]
  by (simp add: env_ex_def init_def)

subsection \<open>What launching and monitoring leave alone\<close>

lemma emit_simps [simp]:
  "is_terminating (emit e w) = is_terminating w"
  "signatures (emit e w) = signatures w"
  "procs (emit e w) = procs w"
  "starts_history (emit e w) = starts_history w"
  "clock (emit e w) = clock w"
  "trace (emit e w) = trace w @ [e]"
  "alive_calls (emit e w) = alive_calls w"
  "probe_calls (emit e w) = probe_calls w"
  "iter_calls (emit e w) = iter_calls w"
  "popen_calls (emit e w) = popen_calls w"
  "poll_calls (emit e w) = poll_calls w"
  by (simp_all add: emit_def)

lemma sleep_for_simps [simp]:
  "signatures (sleep_for en s w) = signatures w"
  "procs (sleep_for en s w) = procs w"
  "starts_history (sleep_for en s w) = starts_history w"
  "clock (sleep_for en s w) = clock w + s"
  "trace (sleep_for en s w) = trace w @ [Sleep s]"
  "alive_calls (sleep_for en s w) = alive_calls w"
  "probe_calls (sleep_for en s w) = probe_calls w"
  "iter_calls (sleep_for en s w) = iter_calls w"
  "popen_calls (sleep_for en s w) = popen_calls w"
  "poll_calls (sleep_for en s w) = poll_calls w"
  by (simp_all add: sleep_for_def Let_def)

lemma carefully_sleep_loop_starts_history [simp]:
  "starts_history (snd (carefully_sleep_loop en k w)) = starts_history w"
  by (induction k arbitrary: w) (simp_all add: emit_def sleep_for_def)

lemma carefully_sleep_loop_spawned [simp]:
  "spawned (trace (snd (carefully_sleep_loop en k w))) = spawned (trace w)"
  by (induction k arbitrary: w) (simp_all add: emit_def sleep_for_def)

lemma health_failed_starts_history [simp]:
  "starts_history (step_world (health_failed en d c sig w)) = starts_history w"
  by (simp add: health_failed_def Let_def py_sleep_def sleep_for_def emit_def
      validation_check_tunnel_alive_def kill_existing_def find_process_by_signature_def
      split: option.splits)

lemma health_failed_spawned [simp]:
  "spawned (trace (step_world (health_failed en d c sig w))) = spawned (trace w)"
  by (simp add: health_failed_def Let_def py_sleep_def sleep_for_def emit_def
      validation_check_tunnel_alive_def kill_existing_def find_process_by_signature_def
      split: option.splits)

lemma tunnel_iteration_starts_history [simp]:
  "starts_history (step_world (tunnel_iteration en d c sig w)) = starts_history w"
  by (simp add: tunnel_iteration_def Let_def case_prod_beta carefully_sleep_def emit_def
      validation_is_process_alive_def validation_check_tunnel_alive_def)

lemma tunnel_iteration_spawned [simp]:
  "spawned (trace (step_world (tunnel_iteration en d c sig w))) = spawned (trace w)"
  by (simp add: tunnel_iteration_def Let_def case_prod_beta carefully_sleep_def emit_def
      validation_is_process_alive_def validation_check_tunnel_alive_def)

lemma launch_starts_history [simp]:
  "starts_history (snd (launch en cmd w)) = starts_history w"
  by (simp add: launch_def Let_def emit_def sleep_for_def)

lemma launch_spawned [simp]:
  "spawned (trace (snd (launch en cmd w))) = spawned (trace w) @ [cmd]"
  by (simp add: launch_def Let_def emit_def sleep_for_def)

lemma launch_is_terminating:
  "shutdown_at en = None \<Longrightarrow> is_terminating (snd (launch en cmd w)) = is_terminating w"
  by (simp add: launch_def Let_def emit_def sleep_for_def)

lemma starts_history_kept:
  "(\<forall>w. starts_history (world_of (spawn_ssh_process n en args d c sig w)) = starts_history w)
   \<and> (\<forall>w. starts_history (world_of (tunnel_loop n en d c sig args w)) = starts_history w)"
proof (induction n)
  case 0
  then show ?case by (simp add: spawn_ssh_process.simps tunnel_loop.simps)
next
  case (Suc n)
  have spawn: "starts_history (world_of (spawn_ssh_process (Suc n) en args d c sig w))
                 = starts_history w" for w
    using Suc.IH
    by (simp add: spawn_ssh_process.simps Let_def case_prod_beta clean_up_def emit_def
        sleep_for_def validation_is_process_alive_def)
  have loop: "starts_history (world_of (tunnel_loop (Suc n) en d c sig args w))
                = starts_history w" for w
  proof (cases "tunnel_iteration en d c sig w")
    case (Continue w1)
    with tunnel_iteration_starts_history [of en d c sig w] Suc.IH show ?thesis
      by (simp add: tunnel_loop.simps)
  next
    case (Exit w1)
    with tunnel_iteration_starts_history [of en d c sig w] show ?thesis
      by (simp add: tunnel_loop.simps)
  next
    case (Relaunch w1)
    with tunnel_iteration_starts_history [of en d c sig w] Suc.IH show ?thesis
      by (simp add: tunnel_loop.simps)
  next
    case (Fail e w1)
    with tunnel_iteration_starts_history [of en d c sig w] show ?thesis
      by (simp add: tunnel_loop.simps)
  qed
  from spawn loop show ?case by blast
qed

lemma launch_alive_calls [simp]:
  "alive_calls (snd (launch en cmd w)) = alive_calls w"
  by (simp add: launch_def Let_def)

lemma relaunch_spawns:
  assumes spawn_n: "\<And>w. \<exists>k. spawned (trace (world_of (spawn_ssh_process n en args d c sig w)))
             = spawned (trace w) @ replicate k (build_cmd c args)"
    and loop_n: "\<And>w. \<exists>k. spawned (trace (world_of (tunnel_loop n en d c sig args w)))
             = spawned (trace w) @ replicate k (build_cmd c args)"
    and running: "\<not> is_terminating (clean_up en w)"
  shows "\<exists>k. spawned (trace (world_of (spawn_ssh_process (Suc n) en args d c sig w)))
             = spawned (trace w) @ replicate (Suc k) (build_cmd c args)"
proof -
  let ?cmd = "build_cmd c args"
  let ?w2 = "snd (launch en ?cmd (clean_up en w))"
  have w2: "spawned (trace ?w2) = spawned (trace w) @ [?cmd]"
    by (simp add: clean_up_def)
  let ?w3 = "snd (validation_is_process_alive en sig ?w2)"
  have w3: "spawned (trace ?w3) = spawned (trace w) @ [?cmd]"
    using w2 by (simp add: validation_is_process_alive_def Let_def)
  show ?thesis
  proof (cases "fst (validation_is_process_alive en sig ?w2)")
    case True
    let ?w4 = "emit (Log Info (''Process for '' @ dquote @ sig @ dquote
                    @ '' survived initialization, got pid=''
                    @ str_int (int (popen_pid (fst (launch en ?cmd (clean_up en w))))))) ?w3"
    obtain k where "spawned (trace (world_of (tunnel_loop n en d c sig args ?w4)))
               = spawned (trace ?w4) @ replicate k ?cmd"
      using loop_n by blast
    then have "spawned (trace (world_of (tunnel_loop n en d c sig args ?w4)))
               = spawned (trace w) @ replicate (Suc k) ?cmd"
      using w3 by simp
    moreover have "spawn_ssh_process (Suc n) en args d c sig w
                     = tunnel_loop n en d c sig args ?w4"
      using True running by (simp add: spawn_ssh_process.simps Let_def case_prod_beta)
    ultimately show ?thesis by metis
  next
    case False
    let ?w5 = "sleep_for en 15 (emit (Log Error (''Cannot spawn '' @ ?cmd @ '', stdout='' @ []
                            @ '', stderr='' @ [])) ?w3)"
    obtain k where "spawned (trace (world_of (spawn_ssh_process n en args d c sig ?w5)))
               = spawned (trace ?w5) @ replicate k ?cmd"
      using spawn_n by blast
    then have "spawned (trace (world_of (spawn_ssh_process n en args d c sig ?w5)))
               = spawned (trace w) @ replicate (Suc k) ?cmd"
      using w3 by simp
    moreover have "spawn_ssh_process (Suc n) en args d c sig w
                     = spawn_ssh_process n en args d c sig ?w5"
      using False running by (simp add: spawn_ssh_process.simps Let_def case_prod_beta)
    ultimately show ?thesis by metis
  qed
qed

lemma spawned_only_cmd:
  "(\<forall>w. \<exists>k. spawned (trace (world_of (spawn_ssh_process n en args d c sig w)))
             = spawned (trace w) @ replicate k (build_cmd c args))
   \<and> (\<forall>w. \<exists>k. spawned (trace (world_of (tunnel_loop n en d c sig args w)))
             = spawned (trace w) @ replicate k (build_cmd c args))"
proof (induction n)
  case 0
  have "spawned (trace w) = spawned (trace w) @ replicate 0 (build_cmd c args)" for w :: world
    by simp
  then show ?case unfolding spawn_ssh_process.simps tunnel_loop.simps world_of.simps by blast
next
  case (Suc n)
  let ?cmd = "build_cmd c args"
  have spawn: "\<exists>k. spawned (trace (world_of (spawn_ssh_process (Suc n) en args d c sig w)))
                 = spawned (trace w) @ replicate k ?cmd" for w
  proof (cases "is_terminating (clean_up en w)")
    case True
    then have "spawned (trace (world_of (spawn_ssh_process (Suc n) en args d c sig w)))
                 = spawned (trace w) @ replicate 0 ?cmd"
      by (simp add: spawn_ssh_process.simps Let_def clean_up_def)
    then show ?thesis by blast
  next
    case False
    with Suc.IH relaunch_spawns [of n en args d c sig w] show ?thesis by blast
  qed
  have loop: "\<exists>k. spawned (trace (world_of (tunnel_loop (Suc n) en d c sig args w)))
                = spawned (trace w) @ replicate k ?cmd" for w
  proof (cases "tunnel_iteration en d c sig w")
    case (Continue w1)
    then have eq: "spawned (trace w1) = spawned (trace w)"
      using tunnel_iteration_spawned [of en d c sig w] by simp
    obtain k where "spawned (trace (world_of (tunnel_loop n en d c sig args w1)))
                      = spawned (trace w1) @ replicate k ?cmd"
      using Suc.IH by blast
    then have "spawned (trace (world_of (tunnel_loop (Suc n) en d c sig args w)))
                 = spawned (trace w) @ replicate k ?cmd"
      using eq Continue by (simp add: tunnel_loop.simps)
    then show ?thesis by blast
  next
    case (Exit w1)
    with tunnel_iteration_spawned [of en d c sig w]
    have "spawned (trace (world_of (tunnel_loop (Suc n) en d c sig args w)))
                = spawned (trace w) @ replicate 0 ?cmd"
      by (simp add: tunnel_loop.simps)
    then show ?thesis by blast
  next
    case (Relaunch w1)
    then have eq: "spawned (trace w1) = spawned (trace w)"
      using tunnel_iteration_spawned [of en d c sig w] by simp
    obtain k where "spawned (trace (world_of (spawn_ssh_process n en args d c sig w1)))
                      = spawned (trace w1) @ replicate k ?cmd"
      using Suc.IH by blast
    then have "spawned (trace (world_of (tunnel_loop (Suc n) en d c sig args w)))
                 = spawned (trace w) @ replicate k ?cmd"
      using eq Relaunch by (simp add: tunnel_loop.simps)
    then show ?thesis by blast
  next
    case (Fail e w1)
    with tunnel_iteration_spawned [of en d c sig w]
    have "spawned (trace (world_of (tunnel_loop (Suc n) en d c sig args w)))
                = spawned (trace w) @ replicate 0 ?cmd"
      by (simp add: tunnel_loop.simps)
    then show ?thesis by blast
  qed
  from spawn loop show ?case by blast
qed

lemma spawn_tunnel_spawned:
  "\<exists>k. spawned (trace (world_of (spawn_tunnel n en d c w)))
          = spawned (trace w)
            @ replicate k (build_cmd c (spawn_opts c @ '' '' @ create_ssh_forwarding d))
      \<and> (0 < n \<and> \<not> is_terminating w \<longrightarrow> 0 < k)"
proof -
  let ?args = "spawn_opts c @ '' '' @ create_ssh_forwarding d"
  let ?w1 = "emit (Log Info (''Created SSH args: '' @ ?args)) w"
  let ?w2 = "?w1\<lparr>signatures := signatures ?w1 @ [create_ssh_forwarding d]\<rparr>"
  let ?w3 = "?w2\<lparr>starts_history := (starts_history ?w2)(d \<mapsto>
                (case starts_history ?w2 d of None \<Rightarrow> [] | Some h \<Rightarrow> h)
                  @ [today en (clock ?w2)])\<rparr>"
  have run: "spawn_tunnel n en d c w
               = spawn_ssh_process n en ?args d c (create_ssh_forwarding d) ?w3"
    by (simp add: spawn_tunnel_def Let_def)
  have start: "spawned (trace ?w3) = spawned (trace w)"
    by simp
  show ?thesis
  proof (cases "0 < n \<and> \<not> is_terminating w")
    case True
    then obtain m where m: "n = Suc m" by (cases n) auto
    from True have "\<not> is_terminating (clean_up en ?w3)"
      by (simp add: clean_up_def)
    then obtain k where "spawned (trace (world_of
           (spawn_ssh_process (Suc m) en ?args d c (create_ssh_forwarding d) ?w3)))
             = spawned (trace ?w3) @ replicate (Suc k) (build_cmd c ?args)"
      using relaunch_spawns [of m en ?args d c "create_ssh_forwarding d" ?w3]
        spawned_only_cmd [of m en ?args d c "create_ssh_forwarding d"] by blast
    with run start m have "spawned (trace (world_of (spawn_tunnel n en d c w)))
          = spawned (trace w) @ replicate (Suc k) (build_cmd c ?args) \<and> 0 < Suc k"
      by simp
    then show ?thesis by blast
  next
    case False
    obtain k where "spawned (trace (world_of
           (spawn_ssh_process n en ?args d c (create_ssh_forwarding d) ?w3)))
             = spawned (trace ?w3) @ replicate k (build_cmd c ?args)"
      using spawned_only_cmd [of n en ?args d c "create_ssh_forwarding d"] by blast
    with run start False show ?thesis by auto
  qed
qed

lemma command_form:
  "build_cmd c (spawn_opts c @ '' '' @ signature) =
     (case remote_password c of
        None \<Rightarrow> []
      | Some password \<Rightarrow>
          if password = [] then []
          else ''sshpass -p '' @ dquote @ password @ dquote @ '' '')
     @ ''autossh -M 0 -N -f -o '' @ squote @ ''PubkeyAuthentication=yes'' @ squote
     @ '' -o '' @ squote @ ''PasswordAuthentication=no'' @ squote @ '' -nT ''
     @ (if ssh_opts c = None \<or> ssh_opts c = Some []
        then (case remote_key c of
                None \<Rightarrow> []
              | Some key \<Rightarrow> if key = [] then [] else '' -i '' @ key)
        else [])
     @ '' '' @ signature
     @ '' -p '' @ str_int (remote_port c) @ '' '' @ remote_user c @ ''@'' @ remote_host c"
proof -
  have opts: "spawn_opts c =
      (if ssh_opts c = None \<or> ssh_opts c = Some []
        then (case remote_key c of
                None \<Rightarrow> []
              | Some key \<Rightarrow> if key = [] then [] else '' -i '' @ key)
        else [])"
    by (cases "ssh_opts c"; cases "remote_key c") (simp_all add: spawn_opts_def fmt_s_def)
  have pass: "(if truthy (remote_password c)
      then ''sshpass -p '' @ dquote @ fmt_s (remote_password c) @ dquote @ '' ''
      else []) =
     (case remote_password c of
        None \<Rightarrow> []
      | Some password \<Rightarrow>
          if password = [] then []
          else ''sshpass -p '' @ dquote @ password @ dquote @ '' '')"
    by (cases "remote_password c") (simp_all add: fmt_s_def)
  show ?thesis
    unfolding build_cmd_def pass opts by simp
qed

text \<open>
  Claim C7. Every command that a call of \<^verbatim>\<open>spawn_tunnel\<close> starts, at the first launch and at
  every relaunch, is the same string: the \<^verbatim>\<open>sshpass -p "password"\<close> prefix exactly when a
  non-empty password is configured, then \<^verbatim>\<open>autossh -M 0 -N -f\<close> with the fixed options, the
  \<^verbatim>\<open>-i key\<close> option exactly when no custom options are configured and a non-empty key path
  is, the forwarding signature, and \<^verbatim>\<open>-p port user@host\<close>. A call with fuel, on a manager
  that is not terminating, starts at least one.
\<close>

theorem spawn_tunnel_command_form:
  "\<exists>k. spawned (trace (world_of (spawn_tunnel n en d c w)))
          = spawned (trace w) @ replicate k
             ((case remote_password c of
                 None \<Rightarrow> []
               | Some password \<Rightarrow>
                   if password = [] then []
                   else ''sshpass -p '' @ dquote @ password @ dquote @ '' '')
              @ ''autossh -M 0 -N -f -o '' @ squote @ ''PubkeyAuthentication=yes'' @ squote
              @ '' -o '' @ squote @ ''PasswordAuthentication=no'' @ squote @ '' -nT ''
              @ (if ssh_opts c = None \<or> ssh_opts c = Some []
                 then (case remote_key c of
                         None \<Rightarrow> []
                       | Some key \<Rightarrow> if key = [] then [] else '' -i '' @ key)
                 else [])
              @ '' '' @ create_ssh_forwarding d
              @ '' -p '' @ str_int (remote_port c) @ '' '' @ remote_user c
              @ ''@'' @ remote_host c)
      \<and> (0 < n \<and> \<not> is_terminating w \<longrightarrow> 0 < k)"
  using spawn_tunnel_spawned [of n en d c w]
  unfolding command_form [of c "create_ssh_forwarding d"] .

lemma str_int_22: "str_int 22 = ''22''"
  by (simp add: str_int_def str_nat.simps digit_char_def)

theorem spawn_tunnel_command_form_witness:
  "0 < (1::nat) \<and> \<not> is_terminating init
   \<and> (\<exists>k. 0 < k \<and> spawned (trace (world_of (spawn_tunnel 1 env_ex fwd_ex cfg_ex init)))
          = replicate k (''sshpass -p '' @ dquote @ ''secret'' @ dquote
              @ '' autossh -M 0 -N -f -o '' @ squote @ ''PubkeyAuthentication=yes'' @ squote
              @ '' -o '' @ squote @ ''PasswordAuthentication=no'' @ squote
              @ '' -nT  -i /keys/id_rsa -L 8080:localhost:80 -p 22 tunnel@example.org''))"
proof -
  have flag: "\<not> is_terminating init" by (simp add: init_def)
  have tr: "spawned (trace init) = []" by (simp add: init_def)
  from spawn_tunnel_command_form [of 1 env_ex fwd_ex cfg_ex init] flag tr
  show ?thesis
    by (simp add: cfg_ex_def fwd_ex_def str_int_22) blast
qed

text \<open>
  Claim C6. However long \<^verbatim>\<open>spawn_ssh_process\<close> and the monitoring loop run, and however
  they end, the history map is the one they started with; in particular a failed start-up
  verification leads to the retry call with the map unchanged and one more command started.
  \<^verbatim>\<open>spawn_tunnel\<close> changes the map at its own definition only, by appending one entry, the
  date of the call, to the history recorded so far (the empty one if there was none).
\<close>

theorem starts_history_grows_only_in_spawn_tunnel:
  "starts_history (world_of (spawn_ssh_process n en args d c sig w)) = starts_history w
   \<and> starts_history (world_of (tunnel_loop n en d c sig args w)) = starts_history w
   \<and> (\<not> is_terminating w \<and> \<not> is_process_alive en (alive_calls w) sig \<longrightarrow>
        (\<exists>w1. spawn_ssh_process (Suc n) en args d c sig w
                 = spawn_ssh_process n en args d c sig w1
              \<and> starts_history w1 = starts_history w
              \<and> spawned (trace w1) = spawned (trace w) @ [build_cmd c args]))
   \<and> starts_history (world_of (spawn_tunnel n en d c w))
       = (starts_history w)(d \<mapsto>
            (case starts_history w d of None \<Rightarrow> [] | Some h \<Rightarrow> h) @ [today en (clock w)])"
proof -
  have retry: "\<exists>w1. spawn_ssh_process (Suc n) en args d c sig w
                 = spawn_ssh_process n en args d c sig w1
              \<and> starts_history w1 = starts_history w
              \<and> spawned (trace w1) = spawned (trace w) @ [build_cmd c args]"
    if "\<not> is_terminating w" "\<not> is_process_alive en (alive_calls w) sig"
  proof -
    let ?cmd = "build_cmd c args"
    let ?w3 = "snd (validation_is_process_alive en sig (snd (launch en ?cmd (clean_up en w))))"
    let ?w5 = "sleep_for en 15 (emit (Log Error (''Cannot spawn '' @ ?cmd @ '', stdout='' @ []
                            @ '', stderr='' @ [])) ?w3)"
    have "spawn_ssh_process (Suc n) en args d c sig w = spawn_ssh_process n en args d c sig ?w5"
      using that
      by (simp add: spawn_ssh_process.simps Let_def case_prod_beta clean_up_def
          validation_is_process_alive_def)
    moreover have "starts_history ?w5 = starts_history w"
      by (simp add: validation_is_process_alive_def Let_def clean_up_def)
    moreover have "spawned (trace ?w5) = spawned (trace w) @ [?cmd]"
      by (simp add: validation_is_process_alive_def Let_def clean_up_def)
    ultimately show ?thesis by blast
  qed
  have "starts_history (world_of (spawn_tunnel n en d c w))
       = (starts_history w)(d \<mapsto>
            (case starts_history w d of None \<Rightarrow> [] | Some h \<Rightarrow> h) @ [today en (clock w)])"
    using starts_history_kept [of n en]
    by (simp add: spawn_tunnel_def Let_def)
  with retry starts_history_kept [of n en args d c sig] show ?thesis by blast
qed

theorem starts_history_grows_only_in_spawn_tunnel_witness:
  "\<not> is_terminating init \<and> \<not> is_process_alive env_retry (alive_calls init) ''-L 8080:localhost:80''
   \<and> (\<exists>w1. spawn_ssh_process (Suc 2) env_retry '' -L 8080:localhost:80'' fwd_ex cfg_ex
               ''-L 8080:localhost:80'' init
             = spawn_ssh_process 2 env_retry '' -L 8080:localhost:80'' fwd_ex cfg_ex
               ''-L 8080:localhost:80'' w1
           \<and> starts_history w1 = starts_history init)
   \<and> starts_history (world_of (spawn_tunnel 3 env_retry fwd_ex cfg_ex init)) fwd_ex = Some [0]"
proof -
  have a: "\<not> is_terminating init" by (simp add: init_def)
  have b: "\<not> is_process_alive env_retry (alive_calls init) ''-L 8080:localhost:80''"
    by (simp add: init_def env_retry_def)
  have c: "today env_retry (clock init) = 0" by (simp add: init_def env_retry_def env_ex_def)
  have d: "starts_history init fwd_ex = None" by (simp add: init_def)
  from starts_history_grows_only_in_spawn_tunnel [of 2 env_retry "'' -L 8080:localhost:80''"
      fwd_ex cfg_ex "''-L 8080:localhost:80''" init] a b
  have "\<exists>w1. spawn_ssh_process (Suc 2) env_retry '' -L 8080:localhost:80'' fwd_ex cfg_ex
               ''-L 8080:localhost:80'' init
             = spawn_ssh_process 2 env_retry '' -L 8080:localhost:80'' fwd_ex cfg_ex
               ''-L 8080:localhost:80'' w1
           \<and> starts_history w1 = starts_history init"
    by blast
  moreover from starts_history_grows_only_in_spawn_tunnel [of 3 env_retry
      "'' -L 8080:localhost:80''" fwd_ex cfg_ex "''-L 8080:localhost:80''" init] c d
  have "starts_history (world_of (spawn_tunnel 3 env_retry fwd_ex cfg_ex init)) fwd_ex = Some [0]"
    by simp
  ultimately show ?thesis using a b by blast
qed

subsection \<open>Shutdown\<close>






lemma close_procs_procs [simp]: "procs (close_procs ps w) = procs w"
  by (induction ps arbitrary: w) simp_all

lemma close_procs_is_terminating [simp]:
  "is_terminating (close_procs ps w) = is_terminating w"
  by (induction ps arbitrary: w) simp_all







lemma get_stats_loop_procs [simp]: "procs (snd (get_stats_loop en ds st w)) = procs w"
  by (induction ds arbitrary: st w) (simp_all add: Let_def find_process_by_signature_def)

lemma get_stats_loop_is_terminating [simp]:
  "is_terminating (snd (get_stats_loop en ds st w)) = is_terminating w"
  by (induction ds arbitrary: st w) (simp_all add: Let_def find_process_by_signature_def)










subsection \<open>Termination requested during the cancellable sleep\<close>

lemma carefully_sleep_loop_frame [simp]:
  "alive_calls (snd (carefully_sleep_loop en k w)) = alive_calls w"
  "probe_calls (snd (carefully_sleep_loop en k w)) = probe_calls w"
  "iter_calls (snd (carefully_sleep_loop en k w)) = iter_calls w"
  "popen_calls (snd (carefully_sleep_loop en k w)) = popen_calls w"
  "procs (snd (carefully_sleep_loop en k w)) = procs w"
  "killed (trace (snd (carefully_sleep_loop en k w))) = killed (trace w)"
  by (induction k arbitrary: w) simp_all

lemma carefully_sleep_loop_cancelled:
  assumes "shutdown_at en = Some t"
    and "is_terminating w \<or> clock w < t"
    and "is_terminating w \<or> t < clock w + k"
    and "0 < k"
  shows "\<not> fst (carefully_sleep_loop en k w)"
  using assms
proof (induction k arbitrary: w)
  case 0
  then show ?case by simp
next
  case (Suc k)
  show ?case
  proof (cases "is_terminating w")
    case True
    then show ?thesis by simp
  next
    case False
    let ?w1 = "sleep_for en 1 w"
    from False Suc.prems have bounds: "clock w < t" "t < clock w + Suc k" by simp_all
    then have k: "0 < k" by simp
    have flag: "is_terminating ?w1 = (t \<le> clock w + 1)"
      using False Suc.prems(1) by (simp add: sleep_for_def Let_def)
    have "is_terminating ?w1 \<or> clock ?w1 < t"
      using flag by auto
    moreover have "is_terminating ?w1 \<or> t < clock ?w1 + k"
      using bounds by simp
    ultimately have "\<not> fst (carefully_sleep_loop en k ?w1)"
      using Suc.IH [of ?w1] Suc.prems(1) k by blast
    with False show ?thesis by simp
  qed
qed

text \<open>
  Claim C5, as amended. If the termination flag becomes set during the cancellable sleep
  before its last one-second tick begins (at a clock value \<open>t\<close> with
  \<open>clock w < t < clock w + interval\<close>), the pass returns from the loop at the sleep: neither
  health oracle is asked, the process table is not read, nothing is started and nothing is
  killed.
\<close>

theorem termination_during_sleep_cancels:
  assumes "shutdown_at en = Some t"
    and "clock w < t"
    and "t < clock w + nat (interval (validate d))"
  shows "\<exists>w1. tunnel_iteration en d c sig w = Exit w1
            \<and> tunnel_loop (Suc n) en d c sig args w = Returned w1
            \<and> alive_calls w1 = alive_calls w
            \<and> probe_calls w1 = probe_calls w
            \<and> iter_calls w1 = iter_calls w
            \<and> spawned (trace w1) = spawned (trace w)
            \<and> killed (trace w1) = killed (trace w)
            \<and> procs w1 = procs w"
proof -
  let ?r = "carefully_sleep_loop en (nat (interval (validate d))) w"
  from assms have "0 < nat (interval (validate d))" by linarith
  with assms have "\<not> fst ?r"
    using carefully_sleep_loop_cancelled [of en t w "nat (interval (validate d))"] by blast
  then have it: "tunnel_iteration en d c sig w = Exit (snd ?r)"
    by (simp add: tunnel_iteration_def carefully_sleep_def case_prod_beta)
  then have "tunnel_loop (Suc n) en d c sig args w = Returned (snd ?r)"
    by (simp add: tunnel_loop.simps)
  with it show ?thesis by simp
qed

theorem termination_during_sleep_cancels_witness:
  "shutdown_at env_late = Some 1 \<and> clock init < 1
   \<and> 1 < clock init + nat (interval (validate (fwd_ex\<lparr>validate := (validate fwd_ex)\<lparr>interval := 3\<rparr>\<rparr>)))
   \<and> (\<exists>w1. tunnel_loop (Suc 0) env_late (fwd_ex\<lparr>validate := (validate fwd_ex)\<lparr>interval := 3\<rparr>\<rparr>)
              cfg_ex ''-L 8080:localhost:80'' '' -L 8080:localhost:80'' init = Returned w1
            \<and> alive_calls w1 = 0 \<and> probe_calls w1 = 0 \<and> spawned (trace w1) = [])"
proof -
  have a: "shutdown_at env_late = Some 1" by (simp add: env_late_def)
  have b: "clock init < 1" by (simp add: init_def)
  have c: "1 < clock init + nat (interval (validate (fwd_ex\<lparr>validate := (validate fwd_ex)\<lparr>interval := 3\<rparr>\<rparr>)))"
    by (simp add: init_def)
  have d: "alive_calls init = 0" "probe_calls init = 0" "spawned (trace init) = []"
    by (simp_all add: init_def)
  from termination_during_sleep_cancels [OF a b c, of cfg_ex "''-L 8080:localhost:80''" 0
      "'' -L 8080:localhost:80''"] a b c d
  show ?thesis by auto
qed

text \<open>With a check interval of 1 and termination requested during the only tick, the sleep
  returns true; the pass then asks for the liveness of the process and probes the tunnel
  twice.\<close>

theorem termination_in_last_tick_counterexample:
  "shutdown_at env_late = Some 1 \<and> \<not> is_terminating init \<and> clock init < 1
   \<and> 1 \<le> clock init + nat (interval (validate fwd_ex))
   \<and> \<not> is_exit (tunnel_iteration env_late fwd_ex cfg_ex ''-L 8080:localhost:80'' init)
   \<and> alive_calls (step_world (tunnel_iteration env_late fwd_ex cfg_ex ''-L 8080:localhost:80'' init)) = 1
   \<and> probe_calls (step_world (tunnel_iteration env_late fwd_ex cfg_ex ''-L 8080:localhost:80'' init)) = 2"
  by (simp add: env_late_def env_ex_def init_def fwd_ex_def tunnel_iteration_def
      carefully_sleep_def sleep_for_def Let_def emit_def validation_is_process_alive_def
      validation_check_tunnel_alive_def health_failed_def py_sleep_def kill_existing_def
      find_process_by_signature_def split: option.splits)

subsection \<open>A failed health probe\<close>

lemma carefully_sleep_loop_trace_kept [simp]:
  "signatures (snd (carefully_sleep_loop en k w)) = signatures w"
  by (induction k arbitrary: w) simp_all






lemma kill_existing_frame [simp]:
  "probe_calls (kill_existing en sig w) = probe_calls w"
  "alive_calls (kill_existing en sig w) = alive_calls w"
  "starts_history (kill_existing en sig w) = starts_history w"
  "clock (kill_existing en sig w) = clock w"
  "procs (kill_existing en sig w) = procs w"
  by (simp_all add: kill_existing_def find_process_by_signature_def split: option.splits)

lemma carefully_sleep_frame [simp]:
  "alive_calls (snd (carefully_sleep en i w)) = alive_calls w"
  "probe_calls (snd (carefully_sleep en i w)) = probe_calls w"
  "iter_calls (snd (carefully_sleep en i w)) = iter_calls w"
  "starts_history (snd (carefully_sleep en i w)) = starts_history w"
  "killed (trace (snd (carefully_sleep en i w))) = killed (trace w)"
  "spawned (trace (snd (carefully_sleep en i w))) = spawned (trace w)"
  by (simp_all add: carefully_sleep_def)

lemma validation_check_tunnel_alive_frame [simp]:
  "trace (snd (validation_check_tunnel_alive en d c w))
     = trace w @ [HealthProbe (check_tunnel_alive en (probe_calls w) d c)]"
  "probe_calls (snd (validation_check_tunnel_alive en d c w)) = Suc (probe_calls w)"
  "iter_calls (snd (validation_check_tunnel_alive en d c w)) = iter_calls w"
  "starts_history (snd (validation_check_tunnel_alive en d c w)) = starts_history w"
  by (simp_all add: validation_check_tunnel_alive_def Let_def)











end
